theory Spec2Isabelle
  imports Complex_Main "HOL-Library.AList" "HOL-Library.Multiset" "HOL-Library.Char_ord"
    "HOL-Library.List_Lexorder" "HOL-Library.Product_Lexorder"
begin

section \<open>Sales processor: a model of \<^verbatim>\<open>src/sales_processor.py\<close>\<close>

text \<open>
  The class \<^verbatim>\<open>SalesProcessor\<close> reads a CSV file in chunks with pandas and keeps five
  dictionaries of running totals. The model below follows the class method by method.

  \<^item> A Python dictionary is an association list in insertion order; a key is stored at
    most once. \<open>AList.update\<close> overwrites the value of a key in place and appends a new
    key at the end, which is the insertion order of a Python \<^verbatim>\<open>dict\<close>; \<open>map_of\<close> is
    the lookup.
  \<^item> A pandas \<^verbatim>\<open>DataFrame\<close> is a list of column labels and a list of rows. A row holds
    the cells of the eight columns the class reads; a missing cell of a text or number
    column (pandas \<^verbatim>\<open>NaN\<close>) is \<open>None\<close>. Which of these columns a frame really has is
    decided by its labels alone: every access by name checks the labels first and raises
    \<^verbatim>\<open>KeyError\<close> otherwise, as pandas does. Labels of one frame are taken to be pairwise
    different after normalisation.
  \<^item> Quantities (\<^verbatim>\<open>units_sold\<close>) are integers; amounts (\<^verbatim>\<open>total_revenue\<close>) are exact
    rationals. Binary floating point and its rounding are not part of the model, so the
    numeric downcasts (\<^verbatim>\<open>pd.to_numeric(..., downcast=...)\<close>) and the conversion of text
    columns to \<^verbatim>\<open>category\<close> change no value and are left out.
  \<^item> \<^verbatim>\<open>pd.to_datetime(..., errors='coerce')\<close> is a parameter \<open>to_datetime\<close> of the
    model, applied to each cell: \<open>None\<close> is pandas' \<^verbatim>\<open>NaT\<close>, the result for a cell that
    does not parse.
  \<^item> An exception is a value of type \<open>error\<close>; a method that can raise returns
    \<open>error + 'a\<close>.
  \<^item> The telemetry printed per chunk (\<^verbatim>\<open>_print_resource_usage\<close>) and the elapsed time
    read clocks and process counters only and have no part in the model.
\<close>

subsection \<open>Exceptions\<close>

datatype error = KeyError string | ValueError string | ZeroDivisionError

subsection \<open>Strings: \<^verbatim>\<open>str.strip\<close>, \<^verbatim>\<open>str.replace\<close>, \<^verbatim>\<open>str.lower\<close>\<close>

text \<open>
  Column labels are ASCII strings. Python's \<^verbatim>\<open>str.strip()\<close> with no argument removes the
  characters for which \<^verbatim>\<open>str.isspace\<close> holds; in ASCII these are the ten below.
\<close>

definition whitespace :: "char list" where
  "whitespace = [CHR 0x09, CHR 0x0A, CHR 0x0B, CHR 0x0C, CHR 0x0D,
                 CHR 0x1C, CHR 0x1D, CHR 0x1E, CHR 0x1F, CHR 0x20]"

definition isspace :: "char \<Rightarrow> bool" where
  "isspace c = (c \<in> set whitespace)"

definition strip :: "string \<Rightarrow> string" where
  "strip s = rev (dropWhile isspace (rev (dropWhile isspace s)))"

definition replace_char :: "char \<Rightarrow> char \<Rightarrow> string \<Rightarrow> string" where
  "replace_char old new s = map (\<lambda>c. if c = old then new else c) s"

definition lower_char :: "char \<Rightarrow> char" where
  "lower_char c =
     (if CHR ''A'' \<le> c \<and> c \<le> CHR ''Z'' then char_of (of_char c + (32::nat)) else c)"

definition lower :: "string \<Rightarrow> string" where
  "lower s = map lower_char s"

text \<open>
  Line 68: \<^verbatim>\<open>chunk.columns.str.strip().str.replace(' ', '_').str.lower()\<close>, for one label.
\<close>

definition normalize_column :: "string \<Rightarrow> string" where
  "normalize_column name = lower (replace_char (CHR 0x20) (CHR ''_'') (strip name))"

text \<open>
  The normalisation as the specification words it: strip leading and trailing
  whitespace, replace internal whitespace with underscores, lowercase.
\<close>

definition spec_normalize :: "string \<Rightarrow> string" where
  "spec_normalize name =
     lower (map (\<lambda>c. if isspace c then CHR ''_'' else c) (strip name))"

subsection \<open>Frames, rows and dates\<close>

type_synonym timestamp = "int \<times> nat \<times> nat"  \<comment> \<open>year, month, day\<close>
type_synonym period = "int \<times> nat"  \<comment> \<open>year, month: a pandas \<^verbatim>\<open>Period\<close> of frequency \<^verbatim>\<open>M\<close>\<close>

definition to_period_M :: "timestamp \<Rightarrow> period" where
  "to_period_M t = (fst t, fst (snd t))"

record row =
  region :: "string option"
  country :: "string option"
  item_type :: "string option"
  sales_channel :: "string option"
  order_date :: string
  ship_date :: string
  units_sold :: "int option"
  total_revenue :: "rat option"

record dataframe =
  columns :: "string list"
  rows :: "row list"

text \<open>
  \<^verbatim>\<open>chunk[name]\<close> and every other access to a column by its label: \<^verbatim>\<open>KeyError\<close> when the
  frame has no such label.
\<close>

definition getitem :: "dataframe \<Rightarrow> string \<Rightarrow> error + unit" where
  "getitem chunk name = (if name \<in> set (columns chunk) then Inr () else Inl (KeyError name))"

text \<open>
  \<^verbatim>\<open>chunk.groupby(by, observed=True)[value].sum()\<close>. pandas groups with its defaults
  \<^verbatim>\<open>sort=True\<close> and \<^verbatim>\<open>dropna=True\<close>: the groups come in ascending order of the key, and a
  row whose key is missing (\<^verbatim>\<open>NaN\<close>, \<^verbatim>\<open>NaT\<close>) belongs to no group. The sum of a group skips
  missing values.
\<close>

definition group_total ::
  "('r \<Rightarrow> 'k option) \<Rightarrow> ('r \<Rightarrow> 'v::comm_monoid_add option) \<Rightarrow> 'r list \<Rightarrow> 'k \<Rightarrow> 'v"
where
  "group_total keyf valf rs k =
     sum_list (map (\<lambda>r. case valf r of None \<Rightarrow> 0 | Some v \<Rightarrow> v)
                   (filter (\<lambda>r. keyf r = Some k) rs))"

definition groupby_sum ::
  "('r \<Rightarrow> 'k::linorder option) \<Rightarrow> ('r \<Rightarrow> 'v::comm_monoid_add option) \<Rightarrow> 'r list \<Rightarrow> ('k \<times> 'v) list"
where
  "groupby_sum keyf valf rs =
     map (\<lambda>k. (k, group_total keyf valf rs k)) (sort (remdups (List.map_filter keyf rs)))"

subsection \<open>The processor and its constructor\<close>

record sales_processor =
  file_path :: string
  chunksize :: int
  sample_fraction :: rat
  product_sales :: "(string \<times> int) list"
  sales_channel_sales :: "(string \<times> int) list"
  country_sales :: "(string \<times> rat) list"
  region_sales :: "(string \<times> rat) list"
  monthly_sales :: "((string \<times> period) \<times> (rat \<times> int)) list"

text \<open>\<^verbatim>\<open>__init__\<close>, lines 6 to 24.\<close>

definition init :: "string \<Rightarrow> int \<Rightarrow> rat \<Rightarrow> sales_processor" where
  "init path n fraction =
     \<lparr>file_path = path, chunksize = n, sample_fraction = fraction,
      product_sales = [], sales_channel_sales = [], country_sales = [],
      region_sales = [], monthly_sales = []\<rparr>"

subsection \<open>\<^verbatim>\<open>_update_sales_totals\<close>\<close>

text \<open>
  One turn of the loop of lines 41 to 44: a key not yet in the dictionary is entered
  with 0, then the value is added to the key's entry.
\<close>

definition update_step :: "'k \<Rightarrow> 'v::comm_monoid_add \<Rightarrow> ('k \<times> 'v) list \<Rightarrow> ('k \<times> 'v) list" where
  "update_step key val sales_dict =
     (let d = (if map_of sales_dict key = None then AList.update key 0 sales_dict
               else sales_dict)
      in case map_of d key of
           Some cur \<Rightarrow> AList.update key (cur + val) d
         | None \<Rightarrow> d)"

fun update_loop :: "('k \<times> 'v::comm_monoid_add) list \<Rightarrow> ('k \<times> 'v) list \<Rightarrow> ('k \<times> 'v) list" where
  "update_loop [] sales_dict = sales_dict"
| "update_loop ((key, val) # items) sales_dict = update_loop items (update_step key val sales_dict)"

text \<open>
  Line 38 groups and sums: \<^verbatim>\<open>groupby\<close> raises \<^verbatim>\<open>KeyError\<close> for an unknown grouping
  column, then \<^verbatim>\<open>agg\<close> for an unknown value column. The arguments \<open>keyf\<close> and \<open>valf\<close> read
  the cells of the two named columns from a row.
\<close>

definition update_sales_totals ::
  "dataframe \<Rightarrow> string \<Rightarrow> (row \<Rightarrow> 'k::linorder option) \<Rightarrow> ('k \<times> 'v::comm_monoid_add) list
     \<Rightarrow> string \<Rightarrow> (row \<Rightarrow> 'v option) \<Rightarrow> error + ('k \<times> 'v) list"
where
  "update_sales_totals chunk group_by_column keyf sales_dict value_column valf =
     (case getitem chunk group_by_column of
        Inl e \<Rightarrow> Inl e
      | Inr _ \<Rightarrow>
          (case getitem chunk value_column of
             Inl e \<Rightarrow> Inl e
           | Inr _ \<Rightarrow> Inr (update_loop (groupby_sum keyf valf (rows chunk)) sales_dict)))"

subsection \<open>\<^verbatim>\<open>_process_chunk\<close>\<close>

text \<open>
  Line 99 and the key of line 100: the month of a row is the period of its parsed order
  date; the key of the monthly grouping is the pair of product and month, missing when
  either part is.
\<close>

definition month :: "(string \<Rightarrow> timestamp option) \<Rightarrow> row \<Rightarrow> period option" where
  "month to_datetime r = map_option to_period_M (to_datetime (order_date r))"

definition monthly_key :: "(string \<Rightarrow> timestamp option) \<Rightarrow> row \<Rightarrow> (string \<times> period) option" where
  "monthly_key to_datetime r =
     (case item_type r of
        None \<Rightarrow> None
      | Some product \<Rightarrow>
          (case month to_datetime r of
             None \<Rightarrow> None
           | Some m \<Rightarrow> Some (product, m)))"

text \<open>
  One turn of the loop of lines 102 to 107: a new key is entered with \<^verbatim>\<open>[0, 0]\<close>, the
  total of the group is added to the first component and 1 to the second.
\<close>

definition monthly_step ::
  "'k \<Rightarrow> rat \<Rightarrow> ('k \<times> (rat \<times> int)) list \<Rightarrow> ('k \<times> (rat \<times> int)) list"
where
  "monthly_step key tot d =
     (let d0 = (if map_of d key = None then AList.update key (0, 0) d else d);
          d1 = (case map_of d0 key of
                  Some (s, c) \<Rightarrow> AList.update key (s + tot, c) d0
                | None \<Rightarrow> d0)
      in case map_of d1 key of
           Some (s, c) \<Rightarrow> AList.update key (s, c + 1) d1
         | None \<Rightarrow> d1)"

fun monthly_loop ::
  "('k \<times> rat) list \<Rightarrow> ('k \<times> (rat \<times> int)) list \<Rightarrow> ('k \<times> (rat \<times> int)) list"
where
  "monthly_loop [] d = d"
| "monthly_loop ((key, tot) # items) d = monthly_loop items (monthly_step key tot d)"

text \<open>
  Lines 99 and 100: the frame gets the column \<^verbatim>\<open>month\<close> from \<^verbatim>\<open>order_date\<close> and is
  grouped by \<^verbatim>\<open>item_type\<close> and \<^verbatim>\<open>month\<close>, summing \<^verbatim>\<open>total_revenue\<close>.
\<close>

definition monthly_group ::
  "(string \<Rightarrow> timestamp option) \<Rightarrow> dataframe \<Rightarrow> error + ((string \<times> period) \<times> rat) list"
where
  "monthly_group to_datetime chunk =
     (case getitem chunk ''order_date'' of
        Inl e \<Rightarrow> Inl e
      | Inr _ \<Rightarrow>
          (case getitem chunk ''item_type'' of
             Inl e \<Rightarrow> Inl e
           | Inr _ \<Rightarrow>
               (case getitem chunk ''total_revenue'' of
                  Inl e \<Rightarrow> Inl e
                | Inr _ \<Rightarrow>
                    Inr (groupby_sum (monthly_key to_datetime) total_revenue (rows chunk)))))"

text \<open>
  Lines 68 to 107. Lines 79 and 80 read the two date columns by name and replace them by
  their parsed values; with \<^verbatim>\<open>errors='coerce'\<close> parsing raises nothing, so only the
  access can fail. The parsed \<^verbatim>\<open>ship_date\<close> is never read again. The chunk number is
  only printed. Nothing catches an exception (\<^verbatim>\<open>main.py\<close> has no handler), so the
  dictionaries already changed when a later line raises are never read: the result of a
  chunk that raises is the exception alone.
\<close>

definition process_chunk ::
  "(string \<Rightarrow> timestamp option) \<Rightarrow> sales_processor \<Rightarrow> dataframe \<Rightarrow> error + sales_processor"
where
  "process_chunk to_datetime self chunk0 =
     (let chunk = chunk0\<lparr>columns := map normalize_column (columns chunk0)\<rparr> in
      case getitem chunk ''order_date'' of Inl e \<Rightarrow> Inl e | Inr _ \<Rightarrow>
      (case getitem chunk ''ship_date'' of Inl e \<Rightarrow> Inl e | Inr _ \<Rightarrow>
      (case update_sales_totals chunk ''item_type'' item_type (product_sales self)
              ''units_sold'' units_sold of Inl e \<Rightarrow> Inl e | Inr products \<Rightarrow>
      (case update_sales_totals chunk ''sales_channel'' sales_channel (sales_channel_sales self)
              ''units_sold'' units_sold of Inl e \<Rightarrow> Inl e | Inr channels \<Rightarrow>
      (case update_sales_totals chunk ''country'' country (country_sales self)
              ''total_revenue'' total_revenue of Inl e \<Rightarrow> Inl e | Inr countries \<Rightarrow>
      (case update_sales_totals chunk ''region'' region (region_sales self)
              ''total_revenue'' total_revenue of Inl e \<Rightarrow> Inl e | Inr regions \<Rightarrow>
      (case monthly_group to_datetime chunk of Inl e \<Rightarrow> Inl e | Inr groups \<Rightarrow>
         Inr (self\<lparr>product_sales := products,
                   sales_channel_sales := channels,
                   country_sales := countries,
                   region_sales := regions,
                   monthly_sales := monthly_loop groups (monthly_sales self)\<rparr>))))))))"

subsection \<open>\<^verbatim>\<open>process_sales_data\<close>\<close>

text \<open>
  \<^verbatim>\<open>pd.read_csv(path, chunksize=n)\<close> yields the rows of the file in frames of \<open>n\<close> rows, the
  last one possibly shorter, each with the labels of the header. A file with a header and
  no rows yields one frame without rows. The argument \<open>file\<close> is the parsed content of
  the file at the path.
\<close>

function chunk_list :: "nat \<Rightarrow> 'a list \<Rightarrow> 'a list list" where
  "chunk_list n xs = (if n = 0 \<or> xs = [] then [] else take n xs # chunk_list n (drop n xs))"
  by pat_completeness auto
termination
  by (relation "measure (\<lambda>(n, xs). length xs)") auto

declare chunk_list.simps [simp del]

definition read_csv :: "dataframe \<Rightarrow> int \<Rightarrow> error + dataframe list" where
  "read_csv file n =
     (if n < 1 then Inl (ValueError ''chunksize must be an integer >=1'')
      else if rows file = [] then Inr [file]
      else Inr (map (\<lambda>rs. file\<lparr>rows := rs\<rparr>) (chunk_list (nat n) (rows file))))"

text \<open>The loop of lines 121 to 123: an exception in a chunk ends the scan.\<close>

fun process_chunks ::
  "(string \<Rightarrow> timestamp option) \<Rightarrow> sales_processor \<Rightarrow> dataframe list \<Rightarrow> error + sales_processor"
where
  "process_chunks to_datetime self [] = Inr self"
| "process_chunks to_datetime self (chunk # chunks) =
     (case process_chunk to_datetime self chunk of
        Inl e \<Rightarrow> Inl e
      | Inr self' \<Rightarrow> process_chunks to_datetime self' chunks)"

definition process_sales_data ::
  "(string \<Rightarrow> timestamp option) \<Rightarrow> sales_processor \<Rightarrow> dataframe \<Rightarrow> error + sales_processor"
where
  "process_sales_data to_datetime self file =
     (case read_csv file (chunksize self) of
        Inl e \<Rightarrow> Inl e
      | Inr chunks \<Rightarrow> process_chunks to_datetime self chunks)"

subsection \<open>\<^verbatim>\<open>print_summary\<close>\<close>

text \<open>
  \<^verbatim>\<open>max(d, key=d.get)\<close>: Python walks the keys in insertion order and replaces the best key
  so far only by a key whose value is strictly greater; an empty dictionary raises
  \<^verbatim>\<open>ValueError\<close>.
\<close>

fun max_loop :: "('k \<times> 'v::linorder) list \<Rightarrow> 'k \<times> 'v \<Rightarrow> 'k \<times> 'v" where
  "max_loop [] best = best"
| "max_loop ((k, v) # items) (bk, bv) = max_loop items (if bv < v then (k, v) else (bk, bv))"

definition py_max :: "('k \<times> 'v::linorder) list \<Rightarrow> error + 'k" where
  "py_max d =
     (case d of
        [] \<Rightarrow> Inl (ValueError ''max() arg is an empty sequence'')
      | item # items \<Rightarrow> Inr (fst (max_loop items item)))"

text \<open>The key of the maximum and, by a lookup, its value (lines 130 and 131).\<close>

definition top_entry :: "(string \<times> 'v::linorder) list \<Rightarrow> error + (string \<times> 'v)" where
  "top_entry d =
     (case py_max d of
        Inl e \<Rightarrow> Inl e
      | Inr k \<Rightarrow> (case map_of d k of None \<Rightarrow> Inl (KeyError k) | Some v \<Rightarrow> Inr (k, v)))"

text \<open>Line 143: the dictionary of averages; the division raises when the count is 0.\<close>

fun monthly_avg_sales :: "('k \<times> (rat \<times> int)) list \<Rightarrow> error + ('k \<times> rat) list" where
  "monthly_avg_sales [] = Inr []"
| "monthly_avg_sales ((k, (s, c)) # items) =
     (if c = 0 then Inl ZeroDivisionError
      else (case monthly_avg_sales items of
              Inl e \<Rightarrow> Inl e
            | Inr avgs \<Rightarrow> Inr ((k, s / of_int c) # avgs)))"

text \<open>
  The five lines that \<^verbatim>\<open>print_summary\<close> prints, without their formatting. The result is
  what was printed, and the exception that ended the method if one did.
\<close>

datatype line =
    MostSoldProduct string int
  | MostSoldChannel string int
  | TopCountry string rat
  | TopRegion string rat
  | MonthlyAverage "((string \<times> period) \<times> rat) list"

definition print_summary :: "sales_processor \<Rightarrow> line list \<times> error option" where
  "print_summary self =
     (case top_entry (product_sales self) of Inl e \<Rightarrow> ([], Some e) | Inr (p, pv) \<Rightarrow>
     (case top_entry (sales_channel_sales self) of
        Inl e \<Rightarrow> ([MostSoldProduct p pv], Some e) | Inr (c, cv) \<Rightarrow>
     (case top_entry (country_sales self) of
        Inl e \<Rightarrow> ([MostSoldProduct p pv, MostSoldChannel c cv], Some e) | Inr (n, nv) \<Rightarrow>
     (case top_entry (region_sales self) of
        Inl e \<Rightarrow> ([MostSoldProduct p pv, MostSoldChannel c cv, TopCountry n nv], Some e)
      | Inr (r, rv) \<Rightarrow>
     (case monthly_avg_sales (monthly_sales self) of
        Inl e \<Rightarrow>
          ([MostSoldProduct p pv, MostSoldChannel c cv, TopCountry n nv, TopRegion r rv], Some e)
      | Inr avgs \<Rightarrow>
          ([MostSoldProduct p pv, MostSoldChannel c cv, TopCountry n nv, TopRegion r rv,
            MonthlyAverage avgs], None))))))"

subsection \<open>\<^verbatim>\<open>main.py\<close>\<close>

definition main :: "(string \<Rightarrow> timestamp option) \<Rightarrow> dataframe \<Rightarrow> line list \<times> error option" where
  "main to_datetime file =
     (case process_sales_data to_datetime (init ''data/vendas.csv'' (10 ^ 6) (1 / 10)) file of
        Inl e \<Rightarrow> ([], Some e)
      | Inr processor \<Rightarrow> print_summary processor)"

subsection \<open>A date parser for the scenarios\<close>

text \<open>
  The scenarios of the specification write dates as \<^verbatim>\<open>YYYY-MM-DD\<close>. \<open>iso_date\<close> reads
  this one format and rejects every other string; pandas reads such a string as the same
  date. It stands for \<open>to_datetime\<close> wherever a concrete run is evaluated.
\<close>

definition digit :: "char \<Rightarrow> nat option" where
  "digit c =
     (if CHR ''0'' \<le> c \<and> c \<le> CHR ''9'' then Some (of_char c - of_char CHR ''0'') else None)"

fun number :: "nat \<Rightarrow> string \<Rightarrow> nat option" where
  "number acc [] = Some acc"
| "number acc (c # cs) = (case digit c of None \<Rightarrow> None | Some d \<Rightarrow> number (10 * acc + d) cs)"

definition leap_year :: "nat \<Rightarrow> bool" where
  "leap_year y = (y mod 4 = 0 \<and> (y mod 100 \<noteq> 0 \<or> y mod 400 = 0))"

definition days_in_month :: "nat \<Rightarrow> nat \<Rightarrow> nat" where
  "days_in_month y m =
     (if m = 2 then (if leap_year y then 29 else 28)
      else if m \<in> set [4, 6, 9, 11] then 30 else 31)"

definition iso_date :: "string \<Rightarrow> timestamp option" where
  "iso_date s =
     (if length s = 10 \<and> s ! 4 = CHR ''-'' \<and> s ! 7 = CHR ''-'' then
        (case (number 0 (take 4 s), number 0 (take 2 (drop 5 s)), number 0 (drop 8 s)) of
           (Some y, Some m, Some d) \<Rightarrow>
             (if 1 \<le> m \<and> m \<le> 12 \<and> 1 \<le> d \<and> d \<le> days_in_month y m
              then Some (int y, m, d) else None)
         | _ \<Rightarrow> None)
      else None)"

subsection \<open>Notions used in the statements\<close>

text \<open>
  The labels \<^verbatim>\<open>_process_chunk\<close> reads by name, in the order of their first use: lines
  79, 80, 87 (grouping column, then value column), 90, 93 and 96.
\<close>

definition required_columns :: "string list" where
  "required_columns =
     [''order_date'', ''ship_date'', ''item_type'', ''units_sold'', ''sales_channel'',
      ''country'', ''total_revenue'', ''region'']"

definition labels :: "dataframe \<Rightarrow> string list" where
  "labels chunk = map normalize_column (columns chunk)"

definition has_columns :: "dataframe \<Rightarrow> bool" where
  "has_columns chunk = list_all (\<lambda>c. c \<in> set (labels chunk)) required_columns"

definition first_missing :: "dataframe \<Rightarrow> string option" where
  "first_missing chunk = List.find (\<lambda>c. c \<notin> set (labels chunk)) required_columns"

text \<open>The keys of the groups of a frame, and all rows of a list of frames.\<close>

definition group_keys :: "('r \<Rightarrow> 'k option) \<Rightarrow> 'r list \<Rightarrow> 'k set" where
  "group_keys keyf rs = set (List.map_filter keyf rs)"

definition all_rows :: "dataframe list \<Rightarrow> row list" where
  "all_rows chunks = concat (map rows chunks)"


text \<open>
  The entry at position \<open>i\<close> of a dictionary has the greatest value, and no entry before
  it has a value as great.
\<close>

definition first_max :: "('k \<times> 'v::linorder) list \<Rightarrow> nat \<Rightarrow> bool" where
  "first_max d i =
     (i < length d
      \<and> list_all (\<lambda>e. snd e \<le> snd (d ! i)) d
      \<and> list_all (\<lambda>e. snd e < snd (d ! i)) (take i d))"

text \<open>A monthly dictionary stores a key once, and every count in it is at least 1.\<close>

definition counts_positive :: "('k \<times> (rat \<times> int)) list \<Rightarrow> bool" where
  "counts_positive d = (distinct (map fst d) \<and> list_all (\<lambda>e. 1 \<le> snd (snd e)) d)"

text \<open>The five running dictionaries of a processor.\<close>

definition aggregates ::
  "sales_processor \<Rightarrow>
     (string \<times> int) list \<times> (string \<times> int) list \<times> (string \<times> rat) list \<times> (string \<times> rat) list
       \<times> ((string \<times> period) \<times> (rat \<times> int)) list"
where
  "aggregates self =
     (product_sales self, sales_channel_sales self, country_sales self, region_sales self,
      monthly_sales self)"

subsection \<open>Scenarios\<close>

definition header :: "string list" where
  "header =
     [''Region'', ''Country'', ''Item Type'', ''Sales Channel'', ''Order Date'', ''Ship Date'',
      ''Units Sold'', ''Total Revenue'']"

definition sale ::
  "string \<Rightarrow> string \<Rightarrow> string \<Rightarrow> string \<Rightarrow> int \<Rightarrow> rat \<Rightarrow> string \<Rightarrow> row"
where
  "sale product channel land area units revenue date =
     \<lparr>region = Some area, country = Some land, item_type = Some product,
      sales_channel = Some channel, order_date = date, ship_date = date,
      units_sold = Some units, total_revenue = Some revenue\<rparr>"

text \<open>The three rows of the end-to-end scenario of the specification.\<close>

definition scenario_file :: dataframe where
  "scenario_file =
     \<lparr>columns = header,
      rows =
        [sale ''Electronics'' ''Online'' ''Brazil'' ''South America'' 10 100 ''2021-01-05'',
         sale ''Electronics'' ''Online'' ''Brazil'' ''South America'' 5 50 ''2021-01-20'',
         sale ''Furniture'' ''Retail'' ''USA'' ''North America'' 20 500 ''2021-02-10'']\<rparr>"

text \<open>Two rows of one product and one month, with revenues 100 and 300.\<close>

definition pair_file :: dataframe where
  "pair_file =
     \<lparr>columns = header,
      rows =
        [sale ''Electronics'' ''Online'' ''Brazil'' ''South America'' 1 100 ''2021-01-05'',
         sale ''Electronics'' ''Online'' ''Brazil'' ''South America'' 1 300 ''2021-01-20'']\<rparr>"

text \<open>The same two rows as two frames of one row each.\<close>

definition pair_first :: dataframe where
  "pair_first =
     \<lparr>columns = header,
      rows = [sale ''Electronics'' ''Online'' ''Brazil'' ''South America'' 1 100 ''2021-01-05'']\<rparr>"

definition pair_second :: dataframe where
  "pair_second =
     \<lparr>columns = header,
      rows = [sale ''Electronics'' ''Online'' ''Brazil'' ''South America'' 1 300 ''2021-01-20'']\<rparr>"

text \<open>The processor after the two rows were scanned in \<open>batches\<close> chunks.\<close>

definition pair_result :: "int \<Rightarrow> int \<Rightarrow> sales_processor" where
  "pair_result n batches =
     \<lparr>file_path = ''data/vendas.csv'', chunksize = n, sample_fraction = 1 / 10,
      product_sales = [(''Electronics'', 2)],
      sales_channel_sales = [(''Online'', 2)],
      country_sales = [(''Brazil'', 400)],
      region_sales = [(''South America'', 400)],
      monthly_sales = [((''Electronics'', 2021, 1), 400, batches)]\<rparr>"


text \<open>A file with the header and no rows.\<close>

definition empty_file :: dataframe where
  "empty_file = \<lparr>columns = header, rows = []\<rparr>"

text \<open>The scenario file without its first column, "Region".\<close>

definition no_region_file :: dataframe where
  "no_region_file = scenario_file\<lparr>columns := tl header\<rparr>"

text \<open>The processor after the scan of the scenario file in one chunk.\<close>

definition scenario_result :: sales_processor where
  "scenario_result =
     \<lparr>file_path = ''data/vendas.csv'', chunksize = 10 ^ 6, sample_fraction = 1 / 10,
      product_sales = [(''Electronics'', 15), (''Furniture'', 20)],
      sales_channel_sales = [(''Online'', 15), (''Retail'', 20)],
      country_sales = [(''Brazil'', 150), (''USA'', 500)],
      region_sales = [(''North America'', 500), (''South America'', 150)],
      monthly_sales = [((''Electronics'', 2021, 1), 150, 1), ((''Furniture'', 2021, 2), 500, 1)]\<rparr>"

section \<open>Column labels\<close>

lemma of_char_lower:
  "of_char (lower_char c) =
     (if 65 \<le> (of_char c :: nat) \<and> (of_char c :: nat) \<le> 90 then of_char c + 32
      else (of_char c :: nat))"
  by (simp add: lower_char_def less_eq_char_def)

lemma isspace_iff: "isspace c \<longleftrightarrow> (of_char c :: nat) \<in> {9, 10, 11, 12, 13, 28, 29, 30, 31, 32}"
proof -
  have "isspace c \<longleftrightarrow> (of_char c :: nat) \<in> of_char ` set whitespace"
    by (auto simp: isspace_def image_iff)
  also have "(of_char ` set whitespace :: nat set) = {9, 10, 11, 12, 13, 28, 29, 30, 31, 32}"
    by (simp add: whitespace_def)
  finally show ?thesis .
qed

lemma isspace_space: "isspace (CHR 0x20)"
  by (simp add: isspace_def whitespace_def)

lemma lower_lower: "lower_char (lower_char c) = lower_char c"
proof -
  have "(of_char (lower_char (lower_char c)) :: nat) = of_char (lower_char c)"
    by (simp add: of_char_lower)
  then show ?thesis by simp
qed

lemma isspace_lower: "isspace (lower_char c) = isspace c"
  by (auto simp: isspace_iff of_char_lower)

lemma lower_eq_space: "lower_char c = CHR 0x20 \<longleftrightarrow> c = CHR 0x20"
proof -
  have "lower_char c = CHR 0x20 \<longleftrightarrow> (of_char (lower_char c) :: nat) = of_char (CHR 0x20)"
    by (metis of_char_eq_iff)
  also have "\<dots> \<longleftrightarrow> (of_char c :: nat) = of_char (CHR 0x20)"
    by (auto simp: of_char_lower)
  also have "\<dots> \<longleftrightarrow> c = CHR 0x20"
    by (metis of_char_eq_iff)
  finally show ?thesis .
qed

lemma strip_Nil: "strip [] = []"
  by (simp add: strip_def)

lemma strip_fixed:
  assumes "t \<noteq> []" "\<not> isspace (hd t)" "\<not> isspace (last t)"
  shows "strip t = t"
proof -
  have "dropWhile isspace t = t"
    using assms by (cases t) auto
  moreover have "dropWhile isspace (rev t) = rev t"
    using assms by (cases "rev t") (auto simp: hd_rev)
  ultimately show ?thesis by (simp add: strip_def)
qed

lemma strip_ends:
  assumes "strip s \<noteq> []"
  shows "\<not> isspace (hd (strip s)) \<and> \<not> isspace (last (strip s))"
proof -
  let ?a = "dropWhile isspace s"
  let ?b = "dropWhile isspace (rev ?a)"
  have b: "?b \<noteq> []"
    using assms by (simp add: strip_def)
  then have "\<not> isspace (hd ?b)"
    by (metis hd_dropWhile)
  then have l: "\<not> isspace (last (strip s))"
    using b by (simp add: strip_def last_rev)
  have a: "?a \<noteq> []"
    using b by (metis dropWhile.simps(1) rev.simps(1))
  then have ha: "\<not> isspace (hd ?a)"
    by (metis hd_dropWhile)
  obtain pre where "rev ?a = pre @ ?b"
    by (metis takeWhile_dropWhile_id)
  then have "?a = rev ?b @ rev pre"
    by (metis rev_append rev_rev_ident)
  then have "hd ?a = hd (rev ?b)"
    using b by (metis hd_append2 rev_is_Nil_conv)
  then show ?thesis
    using ha l by (simp add: strip_def)
qed

lemma normalize_column_map:
  "normalize_column name =
     map (\<lambda>c. lower_char (if c = CHR 0x20 then CHR ''_'' else c)) (strip name)"
  by (simp add: normalize_column_def lower_def replace_char_def)

lemma normalize_column_idem: "normalize_column (normalize_column s) = normalize_column s"
proof -
  let ?g = "\<lambda>c. lower_char (if c = CHR 0x20 then CHR ''_'' else c)"
  have gg: "\<And>c. ?g (?g c) = ?g c"
    by (simp add: lower_lower lower_eq_space)
  have gs: "\<And>c. \<not> isspace c \<Longrightarrow> \<not> isspace (?g c)"
    using isspace_space by (auto simp: isspace_lower)
  have fx: "strip (map ?g (strip s)) = map ?g (strip s)"
  proof (cases "strip s = []")
    case True
    then show ?thesis by (simp add: strip_Nil)
  next
    case False
    then have e: "\<not> isspace (hd (strip s))" "\<not> isspace (last (strip s))"
      using strip_ends by blast+
    show ?thesis
      by (rule strip_fixed) (use False e gs in \<open>simp_all add: hd_map last_map\<close>)
  qed
  show ?thesis by (simp add: normalize_column_map fx gg)
qed

lemma normalize_column_agrees:
  assumes "\<forall>c \<in> set (strip s). isspace c \<longrightarrow> c = CHR 0x20"
  shows "normalize_column s = spec_normalize s"
proof -
  have "\<And>c. c \<in> set (strip s) \<Longrightarrow> (c = CHR 0x20) = isspace c"
    using assms isspace_space by blast
  then have "map (\<lambda>c. if c = CHR 0x20 then CHR ''_'' else c) (strip s)
      = map (\<lambda>c. if isspace c then CHR ''_'' else c) (strip s)"
    by (simp cong: map_cong)
  then show ?thesis
    unfolding normalize_column_def spec_normalize_def replace_char_def by (rule arg_cong)
qed

text \<open>
  Claim C6, as the code has it. The normalisation of a label strips the whitespace at
  both ends, replaces every space character (code 32) by an underscore and lowercases;
  \<^verbatim>\<open>Order Date\<close> becomes \<^verbatim>\<open>order_date\<close>; normalising a normalised label changes nothing;
  and on a label whose inner whitespace is made of space characters only, the result is
  the one the specification describes.
\<close>

theorem normalize_column_spaces:
  "normalize_column name =
     lower (map (\<lambda>c. if c = CHR 0x20 then CHR ''_'' else c) (strip name))
   \<and> normalize_column ''Order Date'' = ''order_date''
   \<and> normalize_column (normalize_column name) = normalize_column name
   \<and> ((\<forall>c \<in> set (strip name). isspace c \<longrightarrow> c = CHR 0x20)
        \<longrightarrow> normalize_column name = spec_normalize name)"
proof -
  have "normalize_column ''Order Date'' = ''order_date''"
    by code_simp
  then show ?thesis
    using normalize_column_idem [of name] normalize_column_agrees [of name]
    by (simp add: normalize_column_def replace_char_def)
qed

theorem normalize_column_spaces_witness:
  "normalize_column ''  Units Sold '' = ''units_sold''
   \<and> normalize_column (normalize_column ''  Units Sold '') = ''units_sold''
   \<and> spec_normalize ''  Units Sold '' = ''units_sold''"
proof -
  have v: "normalize_column ''  Units Sold '' = ''units_sold''"
    by code_simp
  have h: "\<forall>c \<in> set (strip ''  Units Sold ''). isspace c \<longrightarrow> c = CHR 0x20"
    by code_simp
  note t = normalize_column_spaces [of "''  Units Sold ''"]
  from t have i: "normalize_column (normalize_column ''  Units Sold '')
      = normalize_column ''  Units Sold ''"
    by blast
  from t h have a: "normalize_column ''  Units Sold '' = spec_normalize ''  Units Sold ''"
    by blast
  show ?thesis
    using v i a by metis
qed

text \<open>
  Claim C6, as the specification states it, fails on a label with a tab inside: the
  code keeps the tab, where replacing inner whitespace would give an underscore.
\<close>

theorem normalize_column_tab_counterexample:
  "normalize_column (''Order'' @ [CHR 0x09] @ ''Date'') = ''order'' @ [CHR 0x09] @ ''date''
   \<and> spec_normalize (''Order'' @ [CHR 0x09] @ ''Date'') = ''order_date''
   \<and> normalize_column (''Order'' @ [CHR 0x09] @ ''Date'')
       \<noteq> spec_normalize (''Order'' @ [CHR 0x09] @ ''Date'')"
  by code_simp

section \<open>Grouping and merging\<close>




lemma map_of_groupby_sum:
  "map_of (groupby_sum keyf valf rs) k =
     (if k \<in> group_keys keyf rs then Some (group_total keyf valf rs k) else None)"
proof -
  have "map_of (map (\<lambda>k. (k, group_total keyf valf rs k)) ks) k =
      (if k \<in> set ks then Some (group_total keyf valf rs k) else None)" for ks
    by (induction ks) auto
  then show ?thesis
    by (simp add: groupby_sum_def group_keys_def)
qed

lemma distinct_groupby_sum: "distinct (map fst (groupby_sum keyf valf rs))"
  by (simp add: groupby_sum_def comp_def)










section \<open>One chunk, and a list of chunks\<close>

lemma columns_normalized:
  "columns (chunk\<lparr>columns := map normalize_column (columns chunk)\<rparr>) = labels chunk"
  by (simp add: labels_def)

lemma process_chunk_ok:
  assumes "has_columns chunk"
  shows "process_chunk p s chunk =
     Inr (s\<lparr>product_sales :=
               update_loop (groupby_sum item_type units_sold (rows chunk)) (product_sales s),
             sales_channel_sales :=
               update_loop (groupby_sum sales_channel units_sold (rows chunk))
                 (sales_channel_sales s),
             country_sales :=
               update_loop (groupby_sum country total_revenue (rows chunk)) (country_sales s),
             region_sales :=
               update_loop (groupby_sum region total_revenue (rows chunk)) (region_sales s),
             monthly_sales :=
               monthly_loop (groupby_sum (monthly_key p) total_revenue (rows chunk))
                 (monthly_sales s)\<rparr>)"
  using assms
  by (simp add: has_columns_def required_columns_def process_chunk_def update_sales_totals_def
      monthly_group_def getitem_def columns_normalized)

lemma process_chunk_missing:
  assumes "first_missing chunk = Some c"
  shows "process_chunk p s chunk = Inl (KeyError c)"
  using assms
  by (simp add: first_missing_def required_columns_def process_chunk_def
      update_sales_totals_def monthly_group_def getitem_def columns_normalized
      split: if_splits)

lemma first_missing_None: "first_missing chunk = None \<longleftrightarrow> has_columns chunk"
  by (auto simp: first_missing_def has_columns_def find_None_iff list_all_iff)

lemma process_chunk_Inr:
  assumes "process_chunk p s chunk = Inr s'"
  shows "has_columns chunk"
proof (rule ccontr)
  assume "\<not> has_columns chunk"
  then obtain c where "first_missing chunk = Some c"
    using first_missing_None by (cases "first_missing chunk") auto
  then show False
    using assms process_chunk_missing by fastforce
qed



lemma concat_chunk_list: "0 < n \<Longrightarrow> concat (chunk_list n xs) = xs"
proof (induction n xs rule: chunk_list.induct)
  case (1 n xs)
  show ?case
  proof (cases "xs = []")
    case True
    then show ?thesis
      by (simp add: chunk_list.simps [of n "[]"])
  next
    case False
    with 1 show ?thesis
      by (simp add: chunk_list.simps [of n xs])
  qed
qed

lemma chunk_list_nonempty: "0 < n \<Longrightarrow> xs \<noteq> [] \<Longrightarrow> chunk_list n xs \<noteq> []"
  by (simp add: chunk_list.simps [of n xs])

lemma read_csv_ok:
  assumes "1 \<le> n"
  shows "\<exists>c cs. read_csv file n = Inr (c # cs) \<and> all_rows (c # cs) = rows file
      \<and> list_all (\<lambda>x. columns x = columns file) (c # cs)"
proof (cases "rows file = []")
  case True
  then show ?thesis
    using assms by (simp add: read_csv_def all_rows_def)
next
  case False
  let ?cs = "map (\<lambda>rs. file\<lparr>rows := rs\<rparr>) (chunk_list (nat n) (rows file))"
  have pos: "0 < nat n"
    using assms by simp
  have r: "read_csv file n = Inr ?cs"
    using assms False by (simp add: read_csv_def)
  have ne: "?cs \<noteq> []"
    using chunk_list_nonempty [OF pos False] by simp
  have "all_rows ?cs = concat (chunk_list (nat n) (rows file))"
    by (simp add: all_rows_def comp_def)
  then have ar: "all_rows ?cs = rows file"
    using concat_chunk_list [OF pos] by simp
  have cols: "list_all (\<lambda>x. columns x = columns file) ?cs"
    by (simp add: list_all_iff)
  obtain c cs where "?cs = c # cs"
    using ne by (cases ?cs) auto
  then show ?thesis
    using r ar cols by (metis (no_types, lifting))
qed




lemma chunk_list_single: "0 < n \<Longrightarrow> xs \<noteq> [] \<Longrightarrow> length xs \<le> n \<Longrightarrow> chunk_list n xs = [xs]"
  by (simp add: chunk_list.simps [of n xs] chunk_list.simps [of n "[]"])

lemma process_sales_data_single:
  assumes "1 \<le> chunksize self" and "int (length (rows file)) \<le> chunksize self"
  shows "process_sales_data p self file = process_chunk p self file"
proof (cases "rows file = []")
  case True
  then show ?thesis
    using assms by (simp add: process_sales_data_def read_csv_def split: sum.splits)
next
  case False
  have "chunk_list (nat (chunksize self)) (rows file) = [rows file]"
    using assms False by (intro chunk_list_single) auto
  then show ?thesis
    using assms False by (simp add: process_sales_data_def read_csv_def split: sum.splits)
qed


section \<open>The four dimension dictionaries\<close>



section \<open>The monthly accumulator\<close>

lemma map_of_monthly_step:
  "map_of (monthly_step k t d) =
     (map_of d)(k \<mapsto> (fst (case map_of d k of None \<Rightarrow> (0, 0) | Some v \<Rightarrow> v) + t,
                       snd (case map_of d k of None \<Rightarrow> (0, 0) | Some v \<Rightarrow> v) + 1))"
  by (cases "map_of d k") (auto simp: monthly_step_def update_conv' Let_def)

lemma map_of_monthly_loop:
  "distinct (map fst items) \<Longrightarrow>
   map_of (monthly_loop items d) k =
     (case map_of items k of
        None \<Rightarrow> map_of d k
      | Some t \<Rightarrow> Some (fst (case map_of d k of None \<Rightarrow> (0, 0) | Some v \<Rightarrow> v) + t,
                       snd (case map_of d k of None \<Rightarrow> (0, 0) | Some v \<Rightarrow> v) + 1))"
proof (induction items arbitrary: d)
  case Nil
  then show ?case by simp
next
  case (Cons item items)
  obtain k' t' where item: "item = (k', t')"
    by (cases item)
  from Cons.prems item have nk: "map_of items k' = None" and d: "distinct (map fst items)"
    by (auto simp: map_of_eq_None_iff)
  show ?case
    using nk by (simp add: item Cons.IH [OF d] map_of_monthly_step split: option.splits)
qed

lemma process_chunk_monthly:
  assumes "process_chunk p s chunk = Inr s'"
  shows "monthly_sales s' =
      monthly_loop (groupby_sum (monthly_key p) total_revenue (rows chunk)) (monthly_sales s)"
  using assms process_chunk_ok [OF process_chunk_Inr [OF assms], of p s] by auto

lemma monthly_accumulate:
  assumes "process_chunk p s chunk = Inr s'"
  shows "map_of (monthly_sales s') k =
     (if k \<in> group_keys (monthly_key p) (rows chunk)
      then Some (fst (case map_of (monthly_sales s) k of None \<Rightarrow> (0, 0) | Some v \<Rightarrow> v)
                   + group_total (monthly_key p) total_revenue (rows chunk) k,
                 snd (case map_of (monthly_sales s) k of None \<Rightarrow> (0, 0) | Some v \<Rightarrow> v) + 1)
      else map_of (monthly_sales s) k)"
  by (simp add: process_chunk_monthly [OF assms] map_of_monthly_loop [OF distinct_groupby_sum]
      map_of_groupby_sum)

lemma distinct_monthly_step: "distinct (map fst d) \<Longrightarrow> distinct (map fst (monthly_step k t d))"
  by (auto simp: monthly_step_def Let_def distinct_update split: option.splits)

lemma counts_positive_iff:
  "counts_positive d \<longleftrightarrow>
     distinct (map fst d) \<and> (\<forall>k t c. map_of d k = Some (t, c) \<longrightarrow> 1 \<le> c)"
proof (cases "distinct (map fst d)")
  case True
  have "(\<forall>e \<in> set d. 1 \<le> snd (snd e)) \<longleftrightarrow> (\<forall>k t c. (k, t, c) \<in> set d \<longrightarrow> 1 \<le> c)"
    by fastforce
  then show ?thesis
    using True by (simp add: counts_positive_def list_all_iff)
next
  case False
  then show ?thesis
    by (simp add: counts_positive_def)
qed

lemma counts_positive_step:
  assumes "counts_positive d"
  shows "counts_positive (monthly_step k t d)"
proof -
  from assms have dist: "distinct (map fst d)"
    and pos: "\<And>k t c. map_of d k = Some (t, c) \<Longrightarrow> 1 \<le> c"
    by (auto simp: counts_positive_iff)
  have "1 \<le> c'" if "map_of (monthly_step k t d) k' = Some (t', c')" for k' t' c'
  proof (cases "k' = k")
    case True
    show ?thesis
    proof (cases "map_of d k")
      case None
      with that True show ?thesis by (simp add: map_of_monthly_step)
    next
      case (Some v)
      obtain a b where v: "v = (a, b)" by (cases v)
      with Some pos have "1 \<le> b" by blast
      with that True Some v show ?thesis by (auto simp: map_of_monthly_step)
    qed
  next
    case False
    with that pos show ?thesis by (auto simp: map_of_monthly_step)
  qed
  then show ?thesis
    using distinct_monthly_step [OF dist] by (auto simp: counts_positive_iff)
qed

lemma counts_positive_loop: "counts_positive d \<Longrightarrow> counts_positive (monthly_loop items d)"
  by (induction items arbitrary: d) (auto simp: counts_positive_step)

lemma counts_positive_chunks:
  "counts_positive (monthly_sales s) \<Longrightarrow> process_chunks p s cs = Inr s'
     \<Longrightarrow> counts_positive (monthly_sales s')"
proof (induction cs arbitrary: s)
  case Nil
  then show ?case by simp
next
  case (Cons c cs)
  from Cons.prems(2) obtain s1 where 1: "process_chunk p s c = Inr s1"
    and 2: "process_chunks p s1 cs = Inr s'"
    by (auto split: sum.splits)
  have "counts_positive (monthly_sales s1)"
    using Cons.prems(1) by (simp add: process_chunk_monthly [OF 1] counts_positive_loop)
  then show ?case
    using Cons.IH 2 by blast
qed

lemma monthly_avg_defined:
  "list_all (\<lambda>e. 1 \<le> snd (snd e)) d \<Longrightarrow>
     monthly_avg_sales d = Inr (map (\<lambda>e. (fst e, fst (snd e) / of_int (snd (snd e)))) d)"
  by (induction d) auto

lemma count_grows:
  assumes "map_of d k' = Some (t', c')"
  shows "\<exists>t'' c''. map_of (monthly_step k t d) k' = Some (t'', c'') \<and> c' \<le> c''"
  using assms by (auto simp: map_of_monthly_step)



lemma monthly_one_batch:
  assumes "item_type a = Some P" "item_type b = Some P" "month p a = Some M" "month p b = Some M"
    and "total_revenue a = Some 100" "total_revenue b = Some 300"
  shows "monthly_loop (groupby_sum (monthly_key p) total_revenue [a, b]) [] = [((P, M), 400, 1)]"
  using assms
  by (simp add: groupby_sum_def group_total_def monthly_key_def map_filter_simps
      monthly_step_def)

lemma monthly_two_batches:
  assumes "item_type a = Some P" "item_type b = Some P" "month p a = Some M" "month p b = Some M"
    and "total_revenue a = Some 100" "total_revenue b = Some 300"
  shows "monthly_loop (groupby_sum (monthly_key p) total_revenue [b])
           (monthly_loop (groupby_sum (monthly_key p) total_revenue [a]) [])
         = [((P, M), 400, 2)]"
  using assms
  by (simp add: groupby_sum_def group_total_def monthly_key_def map_filter_simps
      monthly_step_def)

lemma has_columns_rows: "has_columns (c\<lparr>rows := rs\<rparr>) = has_columns c"
  by (simp add: has_columns_def labels_def)

text \<open>
  Claim C1. A chunk that is processed changes the monthly dictionary at the keys
  (product, month) of its groups and nowhere else: the sum of the key grows by the sum of
  the revenue of the chunk's rows of that key, and the count grows by one, however many
  rows the chunk has for the key. So two rows of one product and month with revenues 100
  and 300 give the average 400 when they come in one chunk, and 200 when they come in two.
\<close>

theorem monthly_accumulator_counts_batches:
  "(process_chunk p s chunk = Inr s' \<longrightarrow>
      map_of (monthly_sales s') k =
        (if k \<in> group_keys (monthly_key p) (rows chunk)
         then Some (fst (case map_of (monthly_sales s) k of None \<Rightarrow> (0, 0) | Some v \<Rightarrow> v)
                      + group_total (monthly_key p) total_revenue (rows chunk) k,
                    snd (case map_of (monthly_sales s) k of None \<Rightarrow> (0, 0) | Some v \<Rightarrow> v) + 1)
         else map_of (monthly_sales s) k))
   \<and> (has_columns c \<and> item_type a = Some P \<and> item_type b = Some P
        \<and> month p a = Some M \<and> month p b = Some M
        \<and> total_revenue a = Some 100 \<and> total_revenue b = Some 300 \<longrightarrow>
      (\<exists>s1 s2.
          process_chunks p (init path n f) [c\<lparr>rows := [a, b]\<rparr>] = Inr s1
        \<and> monthly_avg_sales (monthly_sales s1) = Inr [((P, M), 400)]
        \<and> process_chunks p (init path n f) [c\<lparr>rows := [a]\<rparr>, c\<lparr>rows := [b]\<rparr>] = Inr s2
        \<and> monthly_avg_sales (monthly_sales s2) = Inr [((P, M), 200)]))"
proof (intro conjI impI)
  assume "process_chunk p s chunk = Inr s'"
  then show "map_of (monthly_sales s') k =
        (if k \<in> group_keys (monthly_key p) (rows chunk)
         then Some (fst (case map_of (monthly_sales s) k of None \<Rightarrow> (0, 0) | Some v \<Rightarrow> v)
                      + group_total (monthly_key p) total_revenue (rows chunk) k,
                    snd (case map_of (monthly_sales s) k of None \<Rightarrow> (0, 0) | Some v \<Rightarrow> v) + 1)
         else map_of (monthly_sales s) k)"
    by (rule monthly_accumulate)
next
  assume h: "has_columns c \<and> item_type a = Some P \<and> item_type b = Some P
        \<and> month p a = Some M \<and> month p b = Some M
        \<and> total_revenue a = Some 100 \<and> total_revenue b = Some 300"
  then have c: "has_columns c"
    and r: "item_type a = Some P" "item_type b = Some P" "month p a = Some M" "month p b = Some M"
      "total_revenue a = Some 100" "total_revenue b = Some 300"
    by simp_all
  obtain s1 where 1: "process_chunks p (init path n f) [c\<lparr>rows := [a, b]\<rparr>] = Inr s1"
    and m1: "monthly_sales s1 =
        monthly_loop (groupby_sum (monthly_key p) total_revenue [a, b]) []"
    using c by (simp add: process_chunk_ok has_columns_rows init_def)
  obtain s2 where 2: "process_chunks p (init path n f) [c\<lparr>rows := [a]\<rparr>, c\<lparr>rows := [b]\<rparr>] = Inr s2"
    and m2: "monthly_sales s2 =
        monthly_loop (groupby_sum (monthly_key p) total_revenue [b])
          (monthly_loop (groupby_sum (monthly_key p) total_revenue [a]) [])"
    using c by (simp add: process_chunk_ok has_columns_rows init_def)
  have "monthly_avg_sales (monthly_sales s1) = Inr [((P, M), 400)]"
    by (simp add: m1 monthly_one_batch [OF r])
  moreover have "monthly_avg_sales (monthly_sales s2) = Inr [((P, M), 200)]"
    by (simp add: m2 monthly_two_batches [OF r])
  ultimately show "\<exists>s1 s2.
          process_chunks p (init path n f) [c\<lparr>rows := [a, b]\<rparr>] = Inr s1
        \<and> monthly_avg_sales (monthly_sales s1) = Inr [((P, M), 400)]
        \<and> process_chunks p (init path n f) [c\<lparr>rows := [a]\<rparr>, c\<lparr>rows := [b]\<rparr>] = Inr s2
        \<and> monthly_avg_sales (monthly_sales s2) = Inr [((P, M), 200)]"
    using 1 2 by blast
qed

theorem monthly_accumulator_counts_batches_witness:
  "process_chunk iso_date (init ''data/vendas.csv'' 2 (1 / 10)) pair_file = Inr (pair_result 2 1)
   \<and> (''Electronics'', 2021, 1) \<in> group_keys (monthly_key iso_date) (rows pair_file)
   \<and> group_total (monthly_key iso_date) total_revenue (rows pair_file) (''Electronics'', 2021, 1)
       = 400
   \<and> map_of (monthly_sales (pair_result 2 1)) (''Electronics'', 2021, 1) = Some (400, 1)
   \<and> (\<exists>s1 s2.
          process_chunks iso_date (init ''data/vendas.csv'' 2 (1 / 10))
            [pair_file\<lparr>rows := [hd (rows pair_first), hd (rows pair_second)]\<rparr>] = Inr s1
        \<and> monthly_avg_sales (monthly_sales s1) = Inr [((''Electronics'', 2021, 1), 400)]
        \<and> process_chunks iso_date (init ''data/vendas.csv'' 2 (1 / 10))
            [pair_file\<lparr>rows := [hd (rows pair_first)]\<rparr>,
             pair_file\<lparr>rows := [hd (rows pair_second)]\<rparr>] = Inr s2
        \<and> monthly_avg_sales (monthly_sales s2) = Inr [((''Electronics'', 2021, 1), 200)])"
proof -
  let ?K = "(''Electronics'', 2021 :: int, 1 :: nat)"
  let ?I = "init ''data/vendas.csv'' 2 (1 / 10)"
  let ?a = "hd (rows pair_first)"
  let ?b = "hd (rows pair_second)"
  have h: "process_chunk iso_date ?I pair_file = Inr (pair_result 2 1)"
    by code_simp
  have g: "?K \<in> group_keys (monthly_key iso_date) (rows pair_file)"
    by code_simp
  have v: "group_total (monthly_key iso_date) total_revenue (rows pair_file) ?K = 400"
    by code_simp
  have c: "has_columns pair_file"
    by code_simp
  have r: "item_type ?a = Some ''Electronics''" "item_type ?b = Some ''Electronics''"
    "total_revenue ?a = Some 100" "total_revenue ?b = Some 300"
    by (simp_all add: pair_first_def pair_second_def sale_def)
  have m: "month iso_date ?a = Some (2021, 1)" "month iso_date ?b = Some (2021, 1)"
    by code_simp+
  note t = monthly_accumulator_counts_batches
    [where p = iso_date and s = ?I and chunk = pair_file and s' = "pair_result 2 1" and k = ?K
      and c = pair_file and a = ?a and b = ?b and P = "''Electronics''" and M = "(2021, 1)"
      and path = "''data/vendas.csv''" and n = 2 and f = "1 / 10"]
  from t h have "map_of (monthly_sales (pair_result 2 1)) ?K =
      (if ?K \<in> group_keys (monthly_key iso_date) (rows pair_file)
       then Some (fst (case map_of (monthly_sales ?I) ?K of None \<Rightarrow> (0, 0) | Some v \<Rightarrow> v)
                    + group_total (monthly_key iso_date) total_revenue (rows pair_file) ?K,
                  snd (case map_of (monthly_sales ?I) ?K of None \<Rightarrow> (0, 0) | Some v \<Rightarrow> v) + 1)
       else map_of (monthly_sales ?I) ?K)"
    by blast
  then have 1: "map_of (monthly_sales (pair_result 2 1)) ?K = Some (400, 1)"
    using g v by (simp add: init_def)
  from t c r m have 2: "\<exists>s1 s2.
          process_chunks iso_date ?I [pair_file\<lparr>rows := [?a, ?b]\<rparr>] = Inr s1
        \<and> monthly_avg_sales (monthly_sales s1) = Inr [((''Electronics'', 2021, 1), 400)]
        \<and> process_chunks iso_date ?I [pair_file\<lparr>rows := [?a]\<rparr>, pair_file\<lparr>rows := [?b]\<rparr>]
            = Inr s2
        \<and> monthly_avg_sales (monthly_sales s2) = Inr [((''Electronics'', 2021, 1), 200)]"
    by blast
  from h g v 1 2 show ?thesis
    by blast
qed




lemma top_entry_error: "top_entry d \<noteq> Inl ZeroDivisionError"
  by (auto simp: top_entry_def py_max_def split: list.splits option.splits)

lemma print_summary_no_zero_division:
  assumes "monthly_avg_sales (monthly_sales s) = Inr avgs"
  shows "snd (print_summary s) \<noteq> Some ZeroDivisionError"
  using assms top_entry_error [of "product_sales s"] top_entry_error [of "sales_channel_sales s"]
    top_entry_error [of "country_sales s"] top_entry_error [of "region_sales s"]
  by (auto simp: print_summary_def split: sum.splits prod.splits)

lemma process_sales_data_counts:
  assumes "process_sales_data p (init path n f) csv = Inr s"
  shows "counts_positive (monthly_sales s)"
proof -
  from assms obtain cs where "process_chunks p (init path n f) cs = Inr s"
    by (auto simp: process_sales_data_def split: sum.splits)
  moreover have "counts_positive (monthly_sales (init path n f))"
    by (simp add: counts_positive_def init_def)
  ultimately show ?thesis
    using counts_positive_chunks by blast
qed

text \<open>
  Claim C10. A monthly dictionary whose counts are all at least 1 keeps this property in
  every turn of the loop of lines 102 to 107: the key of the turn, new or not, has a count
  of at least 1 after the turn, and the count of no key goes down. The dictionary starts
  empty, so after every scan all counts are at least 1, every average of line 143 is
  defined, and the report never ends with a division by zero.
\<close>

theorem monthly_count_never_zero:
  "(counts_positive d \<longrightarrow>
      counts_positive (monthly_step k t d)
      \<and> (\<exists>t1 c1. map_of (monthly_step k t d) k = Some (t1, c1) \<and> 1 \<le> c1))
   \<and> (map_of d kb = Some (tb, cb) \<longrightarrow>
      (\<exists>t3 c3. map_of (monthly_step k t d) kb = Some (t3, c3) \<and> cb \<le> c3))
   \<and> (process_sales_data p (init path n f) csv = Inr s \<longrightarrow>
      counts_positive (monthly_sales s)
      \<and> (\<exists>avgs. monthly_avg_sales (monthly_sales s) = Inr avgs)
      \<and> snd (print_summary s) \<noteq> Some ZeroDivisionError)"
proof (intro conjI impI)
  assume a: "counts_positive d"
  then show "counts_positive (monthly_step k t d)"
    by (rule counts_positive_step)
  then have pos: "\<And>x y. map_of (monthly_step k t d) k = Some (x, y) \<Longrightarrow> 1 \<le> y"
    unfolding counts_positive_iff by blast
  obtain x y where xy: "map_of (monthly_step k t d) k = Some (x, y)"
    by (simp add: map_of_monthly_step)
  with pos show "\<exists>t1 c1. map_of (monthly_step k t d) k = Some (t1, c1) \<and> 1 \<le> c1"
    by blast
next
  assume "map_of d kb = Some (tb, cb)"
  then show "\<exists>t3 c3. map_of (monthly_step k t d) kb = Some (t3, c3) \<and> cb \<le> c3"
    by (rule count_grows)
next
  assume a: "process_sales_data p (init path n f) csv = Inr s"
  then show c: "counts_positive (monthly_sales s)"
    by (rule process_sales_data_counts)
  then have "monthly_avg_sales (monthly_sales s) =
      Inr (map (\<lambda>e. (fst e, fst (snd e) / of_int (snd (snd e)))) (monthly_sales s))"
    by (simp add: counts_positive_def monthly_avg_defined)
  then show "\<exists>avgs. monthly_avg_sales (monthly_sales s) = Inr avgs"
    and "snd (print_summary s) \<noteq> Some ZeroDivisionError"
    using print_summary_no_zero_division by blast+
qed

theorem monthly_count_never_zero_witness:
  "counts_positive (monthly_step (''Electronics'', 2021 :: int, 1 :: nat) 100 [])
   \<and> (\<exists>t1 c1. map_of (monthly_step (''Electronics'', 2021 :: int, 1 :: nat) 100 [])
          (''Electronics'', 2021, 1) = Some (t1, c1) \<and> 1 \<le> c1)
   \<and> (\<exists>t3 c3. map_of (monthly_step (''Electronics'', 2021 :: int, 1 :: nat) 300
                         [((''Electronics'', 2021, 1), 100, 1)])
          (''Electronics'', 2021, 1) = Some (t3, c3) \<and> 1 \<le> c3)
   \<and> process_sales_data iso_date (init ''data/vendas.csv'' 1 (1 / 10)) pair_file
       = Inr (pair_result 1 2)
   \<and> counts_positive (monthly_sales (pair_result 1 2))
   \<and> (\<exists>avgs. monthly_avg_sales (monthly_sales (pair_result 1 2)) = Inr avgs)
   \<and> snd (print_summary (pair_result 1 2)) \<noteq> Some ZeroDivisionError"
proof -
  let ?K = "(''Electronics'', 2021 :: int, 1 :: nat)"
  have a: "counts_positive ([] :: ((string \<times> int \<times> nat) \<times> rat \<times> int) list)"
    by (simp add: counts_positive_def)
  have b: "map_of [(?K, 100 :: rat, 1 :: int)] ?K = Some (100, 1)"
    by simp
  have c: "process_sales_data iso_date (init ''data/vendas.csv'' 1 (1 / 10)) pair_file
      = Inr (pair_result 1 2)"
    by code_simp
  note t1 = monthly_count_never_zero
    [where d = "[]" and k = ?K and t = 100 and p = iso_date and path = "''data/vendas.csv''"
      and n = 1 and f = "1 / 10" and csv = pair_file and s = "pair_result 1 2"]
  note t2 = monthly_count_never_zero
    [where d = "[(?K, 100, 1)]" and k = ?K and t = 300 and kb = ?K and tb = 100 and cb = 1]
  from t1 a have 1: "counts_positive (monthly_step ?K 100 [])"
    "\<exists>t1 c1. map_of (monthly_step ?K 100 []) ?K = Some (t1, c1) \<and> 1 \<le> c1"
    by blast+
  from t2 b have 2: "\<exists>t3 c3. map_of (monthly_step ?K 300 [(?K, 100, 1)]) ?K = Some (t3, c3)
      \<and> 1 \<le> c3"
    by blast
  from t1 c have 3: "counts_positive (monthly_sales (pair_result 1 2))"
    "\<exists>avgs. monthly_avg_sales (monthly_sales (pair_result 1 2)) = Inr avgs"
    "snd (print_summary (pair_result 1 2)) \<noteq> Some ZeroDivisionError"
    by blast+
  from 1 2 3 c show ?thesis
    by blast
qed

section \<open>The reporter\<close>

lemma max_loop_first_max:
  assumes "first_max pre i"
  shows "\<exists>j. first_max (pre @ items) j \<and> max_loop items (pre ! i) = (pre @ items) ! j"
  using assms
proof (induction items arbitrary: pre i)
  case Nil
  then show ?case by auto
next
  case (Cons item items)
  obtain k v where item: "item = (k, v)" by (cases item)
  obtain bk bv where best: "pre ! i = (bk, bv)" by (cases "pre ! i")
  from Cons.prems have i: "i < length pre"
    and le: "\<And>e. e \<in> set pre \<Longrightarrow> snd e \<le> bv"
    and lt: "\<And>e. e \<in> set (take i pre) \<Longrightarrow> snd e < bv"
    by (auto simp: first_max_def best list_all_iff)
  show ?case
  proof (cases "bv < v")
    case True
    have "first_max (pre @ [item]) (length pre)"
      using True le by (fastforce simp: first_max_def item list_all_iff)
    from Cons.IH [OF this] show ?thesis
      using True by (simp add: item best)
  next
    case False
    have "first_max (pre @ [item]) i"
      using False le lt i by (auto simp: first_max_def item best list_all_iff nth_append)
    from Cons.IH [OF this] show ?thesis
      using False i by (simp add: item best nth_append)
  qed
qed

lemma py_max_first_max:
  assumes "d \<noteq> []"
  shows "\<exists>i. first_max d i \<and> py_max d = Inr (fst (d ! i))"
proof -
  obtain item items where d: "d = item # items"
    using assms by (cases d) auto
  have "first_max [item] 0"
    by (simp add: first_max_def)
  from max_loop_first_max [OF this, of items] show ?thesis
    by (auto simp: d py_max_def)
qed



lemma top_entry_nonempty:
  assumes "d \<noteq> []"
  shows "\<exists>kv. top_entry d = Inr kv"
proof -
  from py_max_first_max [OF assms] obtain i where
    i: "first_max d i" "py_max d = Inr (fst (d ! i))"
    by blast
  then have "d ! i \<in> set d"
    by (simp add: first_max_def)
  then have "fst (d ! i) \<in> fst ` set d"
    by blast
  then obtain v where "map_of d (fst (d ! i)) = Some v"
    by (metis domD dom_map_of_conv_image_fst)
  then show ?thesis
    using i by (simp add: top_entry_def)
qed

lemma top_entry_empty: "top_entry [] = Inl (ValueError ''max() arg is an empty sequence'')"
  by (simp add: top_entry_def py_max_def)



lemma print_summary_empty:
  assumes "product_sales s = [] \<or> sales_channel_sales s = [] \<or> country_sales s = []
      \<or> region_sales s = []"
  shows "snd (print_summary s) = Some (ValueError ''max() arg is an empty sequence'')"
proof -
  have e: "top_entry d = Inl (ValueError ''max() arg is an empty sequence'') \<or> (\<exists>kv. top_entry d = Inr kv \<and> d \<noteq> [])"
    for d :: "(string \<times> 'v::linorder) list"
    using top_entry_nonempty [of d] top_entry_empty by (cases "d = []") auto
  show ?thesis
    using assms e [of "product_sales s"] e [of "sales_channel_sales s"]
      e [of "country_sales s"] e [of "region_sales s"]
    by (auto simp: print_summary_def split: sum.splits prod.splits)
qed

lemma process_chunk_error: "process_chunk p s c = Inl e \<Longrightarrow> \<exists>x. e = KeyError x"
  using process_chunk_ok [of c p s] process_chunk_missing [of c _ p s] first_missing_None [of c]
  by (cases "first_missing c") auto

lemma process_chunks_error: "process_chunks p s cs = Inl e \<Longrightarrow> \<exists>x. e = KeyError x"
proof (induction cs arbitrary: s)
  case Nil
  then show ?case by simp
next
  case (Cons c cs)
  then show ?case
    using process_chunk_error by (fastforce split: sum.splits)
qed

lemma process_sales_data_error:
  "process_sales_data p s file \<noteq> Inl (ValueError ''max() arg is an empty sequence'')"
proof
  assume a: "process_sales_data p s file = Inl (ValueError ''max() arg is an empty sequence'')"
  show False
  proof (cases "read_csv file (chunksize s)")
    case (Inl e)
    then have "e = ValueError ''chunksize must be an integer >=1''"
      by (auto simp: read_csv_def split: if_splits)
    with a Inl show False
      by (simp add: process_sales_data_def)
  next
    case (Inr cs)
    with a have "process_chunks p s cs = Inl (ValueError ''max() arg is an empty sequence'')"
      by (simp add: process_sales_data_def)
    then show False
      using process_chunks_error by blast
  qed
qed

lemma process_chunk_no_rows:
  assumes "has_columns c" and "rows c = []"
  shows "process_chunk p s c = Inr s"
  by (simp add: process_chunk_ok [OF assms(1)] assms(2) groupby_sum_def map_filter_simps)

text \<open>
  Claim C8. The scan of a file without rows ends without an exception and leaves the
  dictionaries empty; no scan ever raises the exception of an empty maximum. The
  exception is raised by the reporter, at the first of the four dimension dictionaries
  that is empty, and so by the whole program on a file without rows.
\<close>

theorem empty_aggregate_fails_at_report:
  "(has_columns csv \<and> rows csv = [] \<and> 1 \<le> n \<longrightarrow>
      process_sales_data p (init path n f) csv = Inr (init path n f)
      \<and> print_summary (init path n f) = ([], Some (ValueError ''max() arg is an empty sequence'')))
   \<and> (has_columns csv \<and> rows csv = [] \<longrightarrow>
      main p csv = ([], Some (ValueError ''max() arg is an empty sequence'')))
   \<and> process_sales_data p self csv \<noteq> Inl (ValueError ''max() arg is an empty sequence'')
   \<and> (product_sales s = [] \<or> sales_channel_sales s = [] \<or> country_sales s = []
        \<or> region_sales s = [] \<longrightarrow>
      snd (print_summary s) = Some (ValueError ''max() arg is an empty sequence''))"
proof -
  have scan: "process_sales_data p (init path m f) csv = Inr (init path m f)"
    if "has_columns csv" "rows csv = []" "1 \<le> m" for m path f
    using that
    by (simp add: process_sales_data_single process_chunk_no_rows init_def)
  have rep: "print_summary (init path m f) = ([], Some (ValueError ''max() arg is an empty sequence''))"
    for m path f
    by (simp add: print_summary_def init_def top_entry_empty)
  have "main p csv = ([], Some (ValueError ''max() arg is an empty sequence''))"
    if "has_columns csv" "rows csv = []"
    using scan [OF that, of "10 ^ 6"] rep by (simp add: main_def)
  then show ?thesis
    using scan rep process_sales_data_error print_summary_empty by blast
qed

theorem empty_aggregate_fails_at_report_witness:
  "process_sales_data iso_date (init ''data/vendas.csv'' 2 (1 / 10)) empty_file
     = Inr (init ''data/vendas.csv'' 2 (1 / 10))
   \<and> print_summary (init ''data/vendas.csv'' 2 (1 / 10))
     = ([], Some (ValueError ''max() arg is an empty sequence''))
   \<and> main iso_date empty_file = ([], Some (ValueError ''max() arg is an empty sequence''))
   \<and> snd (print_summary (pair_result 2 1\<lparr>country_sales := []\<rparr>))
     = Some (ValueError ''max() arg is an empty sequence'')"
proof -
  have c: "has_columns empty_file"
    by code_simp
  have r: "rows empty_file = []"
    by (simp add: empty_file_def)
  have e: "country_sales (pair_result 2 1\<lparr>country_sales := []\<rparr>) = []"
    by simp
  note t = empty_aggregate_fails_at_report
    [where csv = empty_file and n = 2 and p = iso_date and path = "''data/vendas.csv''"
      and f = "1 / 10" and s = "pair_result 2 1\<lparr>country_sales := []\<rparr>"]
  from t c r e show ?thesis
    by simp
qed

section \<open>Missing columns\<close>

lemma first_missing_cong: "columns x = columns y \<Longrightarrow> first_missing x = first_missing y"
  by (simp add: first_missing_def labels_def)

lemma process_sales_data_missing:
  assumes "first_missing csv = Some m" and "1 \<le> chunksize self"
  shows "process_sales_data p self csv = Inl (KeyError m)"
proof -
  from read_csv_ok [OF assms(2), of csv] obtain c cs where
    r: "read_csv csv (chunksize self) = Inr (c # cs)" and "columns c = columns csv"
    by auto
  then have "first_missing c = Some m"
    using assms(1) first_missing_cong by metis
  then show ?thesis
    using r by (simp add: process_sales_data_def process_chunk_missing)
qed

text \<open>
  Claim C9. When one of the seven columns of the claim is absent after normalisation,
  the scan ends in its first chunk with \<^verbatim>\<open>KeyError\<close> for the first label, in the order of
  use, that the file lacks; this is the absent column itself when no other required label
  is missing. The program ends with this exception and prints no summary line.
\<close>

theorem missing_column_aborts:
  "c \<in> set [''item_type'', ''sales_channel'', ''country'', ''region'', ''units_sold'',
            ''total_revenue'', ''order_date'']
   \<and> c \<notin> set (labels csv) \<and> 1 \<le> chunksize self \<longrightarrow>
     (\<exists>m. first_missing csv = Some m
        \<and> process_sales_data p self csv = Inl (KeyError m)
        \<and> main p csv = ([], Some (KeyError m))
        \<and> (list_all (\<lambda>x. x = c \<or> x \<in> set (labels csv)) required_columns \<longrightarrow> m = c))"
proof
  assume a: "c \<in> set [''item_type'', ''sales_channel'', ''country'', ''region'', ''units_sold'',
            ''total_revenue'', ''order_date'']
   \<and> c \<notin> set (labels csv) \<and> 1 \<le> chunksize self"
  then have "c \<in> set required_columns" "c \<notin> set (labels csv)"
    by (auto simp: required_columns_def)
  then have "\<not> has_columns csv"
    by (auto simp: has_columns_def list_all_iff)
  then obtain m where m: "first_missing csv = Some m"
    using first_missing_None by (cases "first_missing csv") auto
  then have mr: "m \<in> set required_columns" "m \<notin> set (labels csv)"
    by (auto simp: first_missing_def find_Some_iff)
  have 1: "process_sales_data p self csv = Inl (KeyError m)"
    using m a by (simp add: process_sales_data_missing)
  have "process_sales_data p (init ''data/vendas.csv'' (10 ^ 6) (1 / 10)) csv = Inl (KeyError m)"
    using m by (intro process_sales_data_missing) (simp_all add: init_def)
  then have 2: "main p csv = ([], Some (KeyError m))"
    by (simp add: main_def)
  have 3: "list_all (\<lambda>x. x = c \<or> x \<in> set (labels csv)) required_columns \<longrightarrow> m = c"
    using mr by (auto simp: list_all_iff)
  from m 1 2 3 show "\<exists>m. first_missing csv = Some m
        \<and> process_sales_data p self csv = Inl (KeyError m)
        \<and> main p csv = ([], Some (KeyError m))
        \<and> (list_all (\<lambda>x. x = c \<or> x \<in> set (labels csv)) required_columns \<longrightarrow> m = c)"
    by blast
qed

theorem missing_column_aborts_witness:
  "first_missing no_region_file = Some ''region''
   \<and> process_sales_data iso_date (init ''data/vendas.csv'' 2 (1 / 10)) no_region_file
       = Inl (KeyError ''region'')
   \<and> main iso_date no_region_file = ([], Some (KeyError ''region''))"
proof -
  have a: "''region'' \<in> set [''item_type'', ''sales_channel'', ''country'', ''region'',
      ''units_sold'', ''total_revenue'', ''order_date'']"
    by simp
  have b: "''region'' \<notin> set (labels no_region_file)"
    by code_simp
  have c: "1 \<le> chunksize (init ''data/vendas.csv'' 2 (1 / 10))"
    by (simp add: init_def)
  have d: "list_all (\<lambda>x. x = ''region'' \<or> x \<in> set (labels no_region_file)) required_columns"
    by code_simp
  note t = missing_column_aborts
    [where c = "''region''" and csv = no_region_file and p = iso_date
      and self = "init ''data/vendas.csv'' 2 (1 / 10)"]
  from t a b c d show ?thesis
    by blast
qed

section \<open>The sample fraction\<close>

lemma process_chunk_fraction:
  "process_chunk p (s\<lparr>sample_fraction := a\<rparr>) c =
     map_sum id (\<lambda>x. x\<lparr>sample_fraction := a\<rparr>) (process_chunk p s c)"
proof (cases "first_missing c")
  case None
  then have "has_columns c"
    by (simp add: first_missing_None)
  then show ?thesis
    by (simp add: process_chunk_ok)
next
  case (Some m)
  then show ?thesis
    by (simp add: process_chunk_missing)
qed

lemma process_chunks_fraction:
  "process_chunks p (s\<lparr>sample_fraction := a\<rparr>) cs =
     map_sum id (\<lambda>x. x\<lparr>sample_fraction := a\<rparr>) (process_chunks p s cs)"
proof (induction cs arbitrary: s)
  case Nil
  then show ?case by simp
next
  case (Cons c cs)
  then show ?case
    by (cases "process_chunk p s c") (simp_all add: process_chunk_fraction)
qed

lemma process_sales_data_fraction:
  "process_sales_data p (s\<lparr>sample_fraction := a\<rparr>) csv =
     map_sum id (\<lambda>x. x\<lparr>sample_fraction := a\<rparr>) (process_sales_data p s csv)"
  by (cases "read_csv csv (chunksize s)")
    (simp_all add: process_sales_data_def process_chunks_fraction)

lemma aggregates_fraction: "aggregates (x\<lparr>sample_fraction := a\<rparr>) = aggregates x"
  by (simp add: aggregates_def)

lemma print_summary_fraction: "print_summary (x\<lparr>sample_fraction := a\<rparr>) = print_summary x"
  by (simp add: print_summary_def split: sum.splits prod.splits)

text \<open>
  Claim C5. The constructor stores \<^verbatim>\<open>sample_fraction\<close> and nothing reads it: a scan with
  another value of the field gives the same result but for the field itself, so two
  processors that differ in the fraction only end with the same five dictionaries, or
  with the same exception, on every file; and the report does not depend on the field.
\<close>

theorem sample_fraction_unused:
  "process_sales_data p (self\<lparr>sample_fraction := a\<rparr>) csv =
     map_sum id (\<lambda>x. x\<lparr>sample_fraction := a\<rparr>) (process_sales_data p self csv)
   \<and> map_sum id aggregates (process_sales_data p (init path n a) csv) =
       map_sum id aggregates (process_sales_data p (init path n b) csv)
   \<and> print_summary (self\<lparr>sample_fraction := a\<rparr>) = print_summary self"
proof -
  have i: "init path n a = (init path n b)\<lparr>sample_fraction := a\<rparr>"
    by (simp add: init_def)
  have "map_sum id aggregates (process_sales_data p (init path n a) csv) =
       map_sum id aggregates (process_sales_data p (init path n b) csv)"
    unfolding i process_sales_data_fraction
    by (cases "process_sales_data p (init path n b) csv") (simp_all add: aggregates_fraction)
  then show ?thesis
    by (simp add: process_sales_data_fraction print_summary_fraction)
qed

section \<open>The end-to-end scenario\<close>

text \<open>
  Claim C3. The three rows of the scenario, scanned as one chunk (the default chunk size
  is a million rows), give the five aggregates of the specification. The dictionaries are
  compared by keys and values, as Python compares them; \<open>scenario_result\<close> holds them in
  their insertion order, the sorted order of the groups.
\<close>

theorem end_to_end_scenario:
  "process_sales_data iso_date (init ''data/vendas.csv'' (10 ^ 6) (1 / 10)) scenario_file
     = Inr scenario_result
   \<and> map_of (product_sales scenario_result) = [''Electronics'' \<mapsto> 15, ''Furniture'' \<mapsto> 20]
   \<and> map_of (sales_channel_sales scenario_result) = [''Online'' \<mapsto> 15, ''Retail'' \<mapsto> 20]
   \<and> map_of (country_sales scenario_result) = [''Brazil'' \<mapsto> 150, ''USA'' \<mapsto> 500]
   \<and> map_of (region_sales scenario_result) = [''South America'' \<mapsto> 150, ''North America'' \<mapsto> 500]
   \<and> monthly_avg_sales (monthly_sales scenario_result)
       = Inr [((''Electronics'', 2021, 1), 150), ((''Furniture'', 2021, 2), 500)]
   \<and> main iso_date scenario_file =
       ([MostSoldProduct ''Furniture'' 20, MostSoldChannel ''Retail'' 20, TopCountry ''USA'' 500,
         TopRegion ''North America'' 500,
         MonthlyAverage [((''Electronics'', 2021, 1), 150), ((''Furniture'', 2021, 2), 500)]],
        None)"
proof -
  have l: "length (rows scenario_file) = 3"
    by (simp add: scenario_file_def)
  have c: "process_chunk iso_date (init ''data/vendas.csv'' (10 ^ 6) (1 / 10)) scenario_file
      = Inr scenario_result"
    by code_simp
  have p: "process_sales_data iso_date (init ''data/vendas.csv'' (10 ^ 6) (1 / 10)) scenario_file
      = Inr scenario_result"
    unfolding c [symmetric] by (rule process_sales_data_single) (simp_all add: init_def l)
  have s: "print_summary scenario_result =
       ([MostSoldProduct ''Furniture'' 20, MostSoldChannel ''Retail'' 20, TopCountry ''USA'' 500,
         TopRegion ''North America'' 500,
         MonthlyAverage [((''Electronics'', 2021, 1), 150), ((''Furniture'', 2021, 2), 500)]],
        None)"
    by code_simp
  have m: "main iso_date scenario_file = print_summary scenario_result"
    by (simp only: main_def p sum.case)
  have a: "monthly_avg_sales (monthly_sales scenario_result)
       = Inr [((''Electronics'', 2021, 1), 150), ((''Furniture'', 2021, 2), 500)]"
    by code_simp
  have 1: "map_of (product_sales scenario_result) = [''Electronics'' \<mapsto> 15, ''Furniture'' \<mapsto> 20]"
    by (rule ext) (simp add: scenario_result_def)
  have 2: "map_of (sales_channel_sales scenario_result) = [''Online'' \<mapsto> 15, ''Retail'' \<mapsto> 20]"
    by (rule ext) (simp add: scenario_result_def)
  have 3: "map_of (country_sales scenario_result) = [''Brazil'' \<mapsto> 150, ''USA'' \<mapsto> 500]"
    by (rule ext) (simp add: scenario_result_def)
  have 4: "map_of (region_sales scenario_result)
      = [''South America'' \<mapsto> 150, ''North America'' \<mapsto> 500]"
    by (rule ext) (simp add: scenario_result_def)
  show ?thesis
    by (simp only: p 1 2 3 4 a m s)
qed

end
